theory Spec2Isabelle
  imports Main
begin

section \<open>Tables of the blog database\<close>

text \<open>
  The three SQLAlchemy models of \<^verbatim>\<open>main.py\<close>, one record per table row. Only the
  columns are kept; the \<^verbatim>\<open>relationship\<close> attributes are views on the foreign keys.
  Primary keys are SQLite integers. A foreign key column is nullable (the models do
  not say \<^verbatim>\<open>nullable=False\<close> for it), hence an option.
\<close>

record User =
  u_id :: int
  u_email :: string
  u_password :: string
  u_name :: string

record BlogPost =
  p_id :: int
  p_title :: string
  p_subtitle :: string
  p_date :: string
  p_body :: string
  p_img_url :: string
  p_author_id :: "int option"

record Comment =
  c_id :: int
  c_text :: string
  c_author_id :: "int option"
  c_post_id :: "int option"

text \<open>
  The database file: each table is the list of its rows in insertion order. The
  per-client login state of flask-login is the user id kept in the signed session
  cookie; \<open>None\<close> is a request without one.
\<close>

record database =
  users :: "User list"
  blog_posts :: "BlogPost list"
  comments :: "Comment list"

record app =
  db :: database
  session :: "int option"

section \<open>Requests, replies and errors\<close>

datatype http_method = GET | POST

text \<open>
  The fields of \<^verbatim>\<open>CreatePostForm\<close> that the handlers read. The class is declared in
  \<^verbatim>\<open>forms.py\<close>; \<^verbatim>\<open>main.py\<close> reads these four \<^verbatim>\<open>.data\<close> attributes of it.
\<close>

record post_form =
  f_title :: string
  f_subtitle :: string
  f_img_url :: string
  f_body :: string

text \<open>
  A request: its HTTP verb, the raw form body read through \<^verbatim>\<open>request.form[...]\<close>, and the
  field data that WTForms binds to a \<^verbatim>\<open>CreatePostForm\<close> from a submitted body.
\<close>

record request =
  req_method :: http_method
  form :: "(string \<times> string) list"
  bound_form :: post_form

text \<open>
  What the process takes from outside \<^verbatim>\<open>main.py\<close>: the two werkzeug password
  functions (opaque; the salt is drawn inside \<open>generate_password_hash\<close>), the
  validators of \<^verbatim>\<open>CreatePostForm\<close>, and the clock.
\<close>

datatype month =
  January | February | March | April | May | June
  | July | August | September | October | November | December

record date =
  year :: nat
  month :: month
  day :: nat

record env =
  generate_password_hash :: "string \<Rightarrow> string"
  check_password_hash :: "string \<Rightarrow> string \<Rightarrow> bool"
  validate :: "post_form \<Rightarrow> bool"
  today :: date

text \<open>
  Every way a handler ends without a reply of its own: \<^verbatim>\<open>abort(403)\<close>, a missing
  form key (werkzeug answers 400), and the exceptions nothing catches (a 500).
  OverflowError is what the sqlite3 driver raises when a query parameter is a
  Python int that is no 64-bit signed integer.
\<close>

datatype error =
  Forbidden
  | BadRequestKeyError string
  | IntegrityError
  | AttributeError
  | UnmappedInstanceError
  | OverflowError

datatype arg = IntArg int | BoolArg bool

datatype flash = Flash string string

datatype page =
  IndexPage "BlogPost list"
  | RegisterPage
  | LoginPage
  | PostPage "BlogPost option" "Comment list"
  | MakePostPage post_form

datatype reply =
  Redirect string "(string \<times> arg) list" "flash list"
  | Render page

type_synonym result = "(error + reply) \<times> app"

section \<open>The store\<close>

text \<open>
  SQLite gives an \<^verbatim>\<open>INTEGER PRIMARY KEY\<close> row inserted without an id one more than
  the largest id in the table, and 1 in an empty table.
\<close>

definition next_id :: "int list \<Rightarrow> int" where
  "next_id ids = (case ids of [] \<Rightarrow> 1 | x # xs \<Rightarrow> fold max xs x + 1)"

text \<open>
  The lookup of a table by primary key: the row with that key, or None. It is what
  \<^verbatim>\<open>User.query.get\<close> and \<^verbatim>\<open>BlogPost.query.get\<close> return once the key has reached the
  database.
\<close>

definition get_user :: "database \<Rightarrow> int \<Rightarrow> User option" where
  "get_user d i = find (\<lambda>u. u_id u = i) (users d)"

definition get_post :: "database \<Rightarrow> int \<Rightarrow> BlogPost option" where
  "get_post d i = find (\<lambda>p. p_id p = i) (blog_posts d)"

text \<open>
  \<^verbatim>\<open>db.session.add(user); db.session.commit()\<close>. The column \<^verbatim>\<open>email\<close> is
  \<^verbatim>\<open>unique=True\<close>: the INSERT of a second row with the same email fails and the
  commit raises IntegrityError, the table unchanged.
\<close>

definition add_user :: "string \<Rightarrow> string \<Rightarrow> string \<Rightarrow> database \<Rightarrow> error + (User \<times> database)" where
  "add_user e pw n d =
     (if e \<in> set (map u_email (users d)) then Inl IntegrityError
      else
        (let user = \<lparr>u_id = next_id (map u_id (users d)), u_email = e,
                     u_password = pw, u_name = n\<rparr>
         in Inr (user, d\<lparr>users := users d @ [user]\<rparr>)))"

text \<open>The same for a post: \<^verbatim>\<open>title\<close> is the unique column of \<^verbatim>\<open>blog_posts\<close>.\<close>

definition add_post ::
  "post_form \<Rightarrow> int option \<Rightarrow> string \<Rightarrow> database \<Rightarrow> error + (BlogPost \<times> database)" where
  "add_post f a dt d =
     (if f_title f \<in> set (map p_title (blog_posts d)) then Inl IntegrityError
      else
        (let post = \<lparr>p_id = next_id (map p_id (blog_posts d)), p_title = f_title f,
                     p_subtitle = f_subtitle f, p_date = dt, p_body = f_body f,
                     p_img_url = f_img_url f, p_author_id = a\<rparr>
         in Inr (post, d\<lparr>blog_posts := blog_posts d @ [post]\<rparr>)))"

text \<open>
  The UPDATE that the commit of \<open>edit_post\<close> flushes: the four assigned columns of
  the row with this id. It fails on the unique title when another row holds it.
\<close>

definition update_post :: "int \<Rightarrow> post_form \<Rightarrow> database \<Rightarrow> error + database" where
  "update_post i f d =
     (if f_title f \<in> set (map p_title (filter (\<lambda>p. p_id p \<noteq> i) (blog_posts d)))
      then Inl IntegrityError
      else Inr (d\<lparr>blog_posts :=
        map (\<lambda>p. if p_id p = i
                  then p\<lparr>p_title := f_title f, p_subtitle := f_subtitle f,
                         p_img_url := f_img_url f, p_body := f_body f\<rparr>
                  else p) (blog_posts d)\<rparr>))"

text \<open>
  \<^verbatim>\<open>db.session.delete(post); db.session.commit()\<close>. The relationship
  \<^verbatim>\<open>BlogPost.comments\<close> has no delete cascade, so the unit of work keeps the
  post's comments and sets their \<^verbatim>\<open>post_id\<close> to NULL before the row of the post is
  deleted.
\<close>

definition delete_row :: "int \<Rightarrow> database \<Rightarrow> database" where
  "delete_row i d =
     d\<lparr>blog_posts := filter (\<lambda>p. p_id p \<noteq> i) (blog_posts d),
       comments := map (\<lambda>c. if c_post_id c = Some i then c\<lparr>c_post_id := None\<rparr> else c)
                     (comments d)\<rparr>"

text \<open>
  The INSERT of a comment. Neither foreign key is checked: the engine is SQLite
  opened by its URL alone, which does not enforce foreign keys unless the
  connection turns them on, and \<^verbatim>\<open>main.py\<close> never does.
\<close>

definition add_comment :: "string \<Rightarrow> int \<Rightarrow> int \<Rightarrow> database \<Rightarrow> database" where
  "add_comment t a i d =
     d\<lparr>comments := comments d @
        [\<lparr>c_id = next_id (map c_id (comments d)), c_text = t,
          c_author_id = Some a, c_post_id = Some i\<rparr>]\<rparr>"

text \<open>The comments whose parent is a given post id, in table order.\<close>

definition comments_of :: "database \<Rightarrow> int \<Rightarrow> Comment list" where
  "comments_of d i = filter (\<lambda>c. c_post_id c = Some i) (comments d)"

text \<open>
  The post id of a route comes from the URL converter \<^verbatim>\<open><int:post_id>\<close>, which
  accepts any run of digits, so it is a Python int of any size. SQLite's INTEGER is a
  64-bit signed integer: a query whose parameter is outside that range raises
  OverflowError before any row is read.
\<close>

definition fits_sqlite_integer :: "int \<Rightarrow> bool" where
  "fits_sqlite_integer i = (- (2 ^ 63) \<le> i \<and> i < 2 ^ 63)"

text \<open>\<^verbatim>\<open>BlogPost.query.get(post_id)\<close>.\<close>

definition BlogPost_query_get :: "database \<Rightarrow> int \<Rightarrow> error + BlogPost option" where
  "BlogPost_query_get d i =
     (if fits_sqlite_integer i then Inr (get_post d i) else Inl OverflowError)"

text \<open>\<^verbatim>\<open>Comment.query.filter_by(post_id=post_id).all()\<close>.\<close>

definition Comment_query_filter_by :: "database \<Rightarrow> int \<Rightarrow> error + Comment list" where
  "Comment_query_filter_by d i =
     (if fits_sqlite_integer i then Inr (comments_of d i) else Inl OverflowError)"

section \<open>The date stamp\<close>

fun month_name :: "month \<Rightarrow> string" where
  "month_name January = ''January''"
| "month_name February = ''February''"
| "month_name March = ''March''"
| "month_name April = ''April''"
| "month_name May = ''May''"
| "month_name June = ''June''"
| "month_name July = ''July''"
| "month_name August = ''August''"
| "month_name September = ''September''"
| "month_name October = ''October''"
| "month_name November = ''November''"
| "month_name December = ''December''"

fun decimal :: "nat \<Rightarrow> string" where
  "decimal n =
     (if n < 10 then [''0123456789'' ! n]
      else decimal (n div 10) @ [''0123456789'' ! (n mod 10)])"

declare decimal.simps [simp del]

text \<open>\<^verbatim>\<open>strftime("%B %d, %Y")\<close>: month name, day on two digits, year.\<close>

definition strftime_B_d_Y :: "date \<Rightarrow> string" where
  "strftime_B_d_Y dt =
     month_name (month dt) @ '' '' @
     (if day dt < 10 then ''0'' else '''') @ decimal (day dt) @ '', '' @ decimal (year dt)"

section \<open>Login state\<close>

text \<open>\<^verbatim>\<open>load_user\<close>, the loader that flask-login calls with the id of the cookie.\<close>

definition load_user :: "database \<Rightarrow> int \<Rightarrow> User option" where
  "load_user d user_id = get_user d user_id"

text \<open>
  \<^verbatim>\<open>current_user\<close>: the loaded user, or the anonymous user (None here) without a
  cookie or when the loader finds no row. \<^verbatim>\<open>is_authenticated\<close> holds of a User only.
\<close>

definition current_user :: "app \<Rightarrow> User option" where
  "current_user s = (case session s of None \<Rightarrow> None | Some i \<Rightarrow> load_user (db s) i)"

definition is_authenticated :: "app \<Rightarrow> bool" where
  "is_authenticated s = (current_user s \<noteq> None)"

text \<open>\<^verbatim>\<open>login_user\<close> and \<^verbatim>\<open>logout_user\<close> write and drop the id of the cookie.\<close>

definition login_user :: "User \<Rightarrow> app \<Rightarrow> app" where
  "login_user u s = s\<lparr>session := Some (u_id u)\<rparr>"

definition logout_user :: "app \<Rightarrow> app" where
  "logout_user s = s\<lparr>session := None\<rparr>"

text \<open>The decorator: anyone but the authenticated user with id 1 is aborted with 403.\<close>

definition admin_only :: "(app \<Rightarrow> result) \<Rightarrow> app \<Rightarrow> result" where
  "admin_only f s =
     (case current_user s of
        None \<Rightarrow> (Inl Forbidden, s)
      | Some u \<Rightarrow> if u_id u \<noteq> 1 then (Inl Forbidden, s) else f s)"

section \<open>Routes\<close>

definition get_all_posts :: "app \<Rightarrow> result" where
  "get_all_posts s = (Inr (Render (IndexPage (blog_posts (db s)))), s)"

definition register :: "env \<Rightarrow> request \<Rightarrow> app \<Rightarrow> result" where
  "register ev req s =
     (if req_method req = POST then
        (case map_of (form req) ''password'' of
           None \<Rightarrow> (Inl (BadRequestKeyError ''password''), s)
         | Some raw_pswd \<Rightarrow>
             (let hashed_password = generate_password_hash ev raw_pswd in
              case map_of (form req) ''email'' of
                None \<Rightarrow> (Inl (BadRequestKeyError ''email''), s)
              | Some e \<Rightarrow>
                  (case map_of (form req) ''name'' of
                     None \<Rightarrow> (Inl (BadRequestKeyError ''name''), s)
                   | Some n \<Rightarrow>
                       (case add_user e hashed_password n (db s) of
                          Inl err \<Rightarrow>
                            (if err = IntegrityError then
                               (Inr (Redirect ''login'' []
                                  [Flash ''You've already signed up with that email. Login instead!''
                                     ''error'']), s)
                             else (Inl err, s))
                        | Inr (user, d') \<Rightarrow>
                            (Inr (Redirect ''get_all_posts'' []
                               [Flash ''You've been successfully registered and logged in.''
                                  ''success'']),
                             login_user user (s\<lparr>db := d'\<rparr>))))))
      else (Inr (Render RegisterPage), s))"

definition login :: "env \<Rightarrow> request \<Rightarrow> app \<Rightarrow> result" where
  "login ev req s =
     (if req_method req = POST then
        (case map_of (form req) ''email'' of
           None \<Rightarrow> (Inl (BadRequestKeyError ''email''), s)
         | Some e \<Rightarrow>
             (case find (\<lambda>u. u_email u = e) (users (db s)) of
                Some user \<Rightarrow>
                  (case map_of (form req) ''password'' of
                     None \<Rightarrow> (Inl (BadRequestKeyError ''password''), s)
                   | Some pw \<Rightarrow>
                       if check_password_hash ev (u_password user) pw then
                         (let s' = login_user user s in
                          (Inr (Redirect ''get_all_posts''
                             [(''logged_in'', BoolArg (is_authenticated s'))]
                             [Flash ''You've been successfully logged in'' ''success'']), s'))
                       else
                         (Inr (Redirect ''login'' []
                            [Flash ''Password is incorrect, Try again.'' ''error'']), s))
              | None \<Rightarrow>
                  (Inr (Redirect ''login'' []
                     [Flash ''Email doesn't exist, Try again.'' ''error'']), s)))
      else (Inr (Render LoginPage), s))"

definition logout :: "app \<Rightarrow> result" where
  "logout s = (Inr (Redirect ''get_all_posts'' [] []), logout_user s)"

text \<open>
  \<open>show_post\<close> runs the comment query first, for a GET and a POST alike; a post id
  that is no SQLite integer ends the request there.
\<close>

definition show_post :: "int \<Rightarrow> request \<Rightarrow> app \<Rightarrow> result" where
  "show_post post_id req s =
     (case Comment_query_filter_by (db s) post_id of
        Inl err \<Rightarrow> (Inl err, s)
      | Inr cs \<Rightarrow>
          if req_method req = POST then
            (case current_user s of
               Some u \<Rightarrow>
                 (case map_of (form req) ''comment'' of
                    None \<Rightarrow> (Inl (BadRequestKeyError ''comment''), s)
                  | Some comment \<Rightarrow>
                      (Inr (Redirect ''show_post'' [(''post_id'', IntArg post_id)] []),
                       s\<lparr>db := add_comment comment (u_id u) post_id (db s)\<rparr>))
             | None \<Rightarrow>
                 (Inr (Redirect ''login'' []
                    [Flash ''You need to Register or Login to comment'' ''error'']), s))
          else
            (case BlogPost_query_get (db s) post_id of
               Inl err \<Rightarrow> (Inl err, s)
             | Inr requested_post \<Rightarrow> (Inr (Render (PostPage requested_post cs)), s)))"

text \<open>\<^verbatim>\<open>form.validate_on_submit()\<close>: a submitted (POST) form whose validators pass.\<close>

definition validate_on_submit :: "env \<Rightarrow> request \<Rightarrow> post_form \<Rightarrow> bool" where
  "validate_on_submit ev req f = (req_method req = POST \<and> validate ev f)"

text \<open>
  The form of a request: the submitted data on a POST, the defaults it was built
  with otherwise.
\<close>

definition CreatePostForm :: "request \<Rightarrow> post_form \<Rightarrow> post_form" where
  "CreatePostForm req defaults = (if req_method req = POST then bound_form req else defaults)"

definition empty_form :: post_form where
  "empty_form = \<lparr>f_title = '''', f_subtitle = '''', f_img_url = '''', f_body = ''''\<rparr>"

definition add_new_post :: "env \<Rightarrow> request \<Rightarrow> app \<Rightarrow> result" where
  "add_new_post ev req =
     admin_only (\<lambda>s.
       (let fm = CreatePostForm req empty_form in
        if validate_on_submit ev req fm then
          (case add_post fm (map_option u_id (current_user s))
                  (strftime_B_d_Y (today ev)) (db s) of
             Inl err \<Rightarrow> (Inl err, s)
           | Inr (new_post, d') \<Rightarrow> (Inr (Redirect ''get_all_posts'' [] []), s\<lparr>db := d'\<rparr>))
        else (Inr (Render (MakePostPage fm)), s)))"

definition edit_post :: "env \<Rightarrow> int \<Rightarrow> request \<Rightarrow> app \<Rightarrow> result" where
  "edit_post ev post_id req =
     admin_only (\<lambda>s.
       (case BlogPost_query_get (db s) post_id of
          Inl err \<Rightarrow> (Inl err, s)
        | Inr None \<Rightarrow> (Inl AttributeError, s)
        | Inr (Some post) \<Rightarrow>
            (let edit_form = CreatePostForm req
                   \<lparr>f_title = p_title post, f_subtitle = p_subtitle post,
                    f_img_url = p_img_url post, f_body = p_body post\<rparr>
             in
             if validate_on_submit ev req edit_form then
               (case update_post (p_id post) edit_form (db s) of
                  Inl err \<Rightarrow> (Inl err, s)
                | Inr d' \<Rightarrow>
                    (Inr (Redirect ''show_post'' [(''post_id'', IntArg (p_id post))] []),
                     s\<lparr>db := d'\<rparr>))
             else (Inr (Render (MakePostPage edit_form)), s))))"

definition delete_post :: "int \<Rightarrow> app \<Rightarrow> result" where
  "delete_post post_id =
     admin_only (\<lambda>s.
       (case BlogPost_query_get (db s) post_id of
          Inl err \<Rightarrow> (Inl err, s)
        | Inr None \<Rightarrow> (Inl UnmappedInstanceError, s)
        | Inr (Some post_to_delete) \<Rightarrow>
            (Inr (Redirect ''get_all_posts'' [] []),
             s\<lparr>db := delete_row (p_id post_to_delete) (db s)\<rparr>)))"

section \<open>Properties of a store, and a sample store\<close>

text \<open>
  The constraints the schema declares and SQLite enforces: primary keys and the
  two unique columns.
\<close>

definition keys_unique :: "database \<Rightarrow> bool" where
  "keys_unique d =
     (distinct (map u_id (users d)) \<and> distinct (map u_email (users d)) \<and>
      distinct (map p_id (blog_posts d)) \<and> distinct (map p_title (blog_posts d)) \<and>
      distinct (map c_id (comments d)))"

text \<open>Every comment has a parent post, and that post is a row of \<^verbatim>\<open>blog_posts\<close>.\<close>

definition parent_posts_present :: "database \<Rightarrow> bool" where
  "parent_posts_present d =
     list_all (\<lambda>c. case c_post_id c of None \<Rightarrow> False | Some i \<Rightarrow> get_post d i \<noteq> None)
       (comments d)"

definition ex_env :: env where
  "ex_env =
     \<lparr>generate_password_hash = (\<lambda>p. ''h$'' @ p),
      check_password_hash = (\<lambda>h p. h = ''h$'' @ p),
      validate = (\<lambda>f. f_title f \<noteq> [] \<and> f_subtitle f \<noteq> [] \<and> f_img_url f \<noteq> [] \<and> f_body f \<noteq> []),
      today = \<lparr>year = 2024, month = March, day = 5\<rparr>\<rparr>"

definition ex_admin :: User where
  "ex_admin = \<lparr>u_id = 1, u_email = ''admin@example.com'', u_password = ''h$root'', u_name = ''Admin''\<rparr>"

definition ex_alice :: User where
  "ex_alice = \<lparr>u_id = 2, u_email = ''alice@example.com'', u_password = ''h$pw'', u_name = ''Alice''\<rparr>"

definition ex_post :: BlogPost where
  "ex_post =
     \<lparr>p_id = 1, p_title = ''Hello World'', p_subtitle = ''first'', p_date = ''March 05, 2024'',
      p_body = ''text'', p_img_url = ''http://img'', p_author_id = Some 1\<rparr>"

definition ex_news :: BlogPost where
  "ex_news =
     \<lparr>p_id = 2, p_title = ''News'', p_subtitle = ''second'', p_date = ''March 05, 2024'',
      p_body = ''more'', p_img_url = ''http://pic'', p_author_id = Some 1\<rparr>"

definition ex_comment :: Comment where
  "ex_comment = \<lparr>c_id = 1, c_text = ''Nice post!'', c_author_id = Some 2, c_post_id = Some 1\<rparr>"

definition ex_db :: database where
  "ex_db = \<lparr>users = [ex_admin, ex_alice], blog_posts = [ex_post, ex_news], comments = [ex_comment]\<rparr>"

definition ex_app :: "int option \<Rightarrow> app" where
  "ex_app who = \<lparr>db = ex_db, session = who\<rparr>"

definition ex_form :: "string \<Rightarrow> post_form" where
  "ex_form t = \<lparr>f_title = t, f_subtitle = ''S'', f_img_url = ''U'', f_body = ''B''\<rparr>"

definition ex_request :: "http_method \<Rightarrow> (string \<times> string) list \<Rightarrow> string \<Rightarrow> request" where
  "ex_request m fs t = \<lparr>req_method = m, form = fs, bound_form = ex_form t\<rparr>"

section \<open>Fresh ids and lookups\<close>

lemma fold_max_ge:
  assumes "x \<in> set (y # ys)"
  shows "(x::int) \<le> fold max ys y"
proof -
  have "x \<le> Max (set (y # ys))"
    using assms by (intro Max_ge) simp_all
  then show ?thesis
    by (simp only: Max.set_eq_fold)
qed

lemma next_id_fresh:
  assumes "i \<in> set ids"
  shows "i < next_id ids"
proof (cases ids)
  case Nil
  with assms show ?thesis by simp
next
  case (Cons y ys)
  with assms have "i \<le> fold max ys y"
    by (intro fold_max_ge) simp
  with Cons show ?thesis
    by (simp add: next_id_def)
qed

lemma next_id_notin: "next_id ids \<notin> set ids"
  using next_id_fresh [of "next_id ids" ids] by auto

lemma find_snoc_fresh:
  assumes "\<And>x. x \<in> set xs \<Longrightarrow> \<not> P x" and "P y"
  shows "find P (xs @ [y]) = Some y"
  using assms by (induction xs) auto

lemma find_snoc_other:
  assumes "\<not> P y"
  shows "find P (xs @ [y]) = find P xs"
  using assms by (induction xs) auto

lemma find_key_distinct:
  assumes "distinct (map k xs)" and "x \<in> set xs"
  shows "find (\<lambda>y. k y = k x) xs = Some x"
  using assms by (induction xs) (auto simp: image_iff)

lemma find_none_key:
  assumes "v \<notin> set (map k xs)"
  shows "find (\<lambda>y. k y = v) xs = None"
  using assms by (induction xs) auto

lemma find_some_key:
  assumes "find (\<lambda>y. k y = v) xs = Some x"
  shows "k x = v \<and> x \<in> set xs"
  using assms by (induction xs) (auto split: if_splits)

lemma find_next_id:
  "find (\<lambda>x. k x = next_id (map k xs)) xs = None"
proof -
  have "k x < next_id (map k xs)" if "x \<in> set xs" for x
    using that by (intro next_id_fresh) simp
  then show ?thesis
    by (fastforce simp: find_None_iff)
qed

lemma find_snoc_next_id:
  assumes "k y = next_id (map k xs)"
  shows "find (\<lambda>x. k x = next_id (map k xs)) (xs @ [y]) = Some y"
proof (rule find_snoc_fresh)
  fix x assume "x \<in> set xs"
  then have "k x < next_id (map k xs)"
    by (intro next_id_fresh) simp
  then show "k x \<noteq> next_id (map k xs)" by simp
next
  show "k y = next_id (map k xs)" by (rule assms)
qed

text \<open>The first row of a table gets id 1, and no later row does.\<close>

lemma next_id_empty: "next_id [] = 1"
  by (simp add: next_id_def)

lemma next_id_after_one:
  assumes "1 \<in> set ids"
  shows "1 < next_id ids"
  using assms by (rule next_id_fresh)

section \<open>The administrator guard\<close>

text \<open>
  Claim C1. The three post-changing routes \<open>add_new_post\<close>, \<open>edit_post\<close> and
  \<open>delete_post\<close> answer Forbidden (403), with the store and the session as they
  were, for every caller whose current user is not the user with id 1, logged in or
  not; the user with id 1 is never answered Forbidden. So they can succeed only for
  the user with id 1.
\<close>

theorem admin_only_post_routes:
  "(\<not> (\<exists>u. current_user s = Some u \<and> u_id u = 1) \<longrightarrow>
      add_new_post ev req s = (Inl Forbidden, s) \<and>
      edit_post ev i req s = (Inl Forbidden, s) \<and>
      delete_post i s = (Inl Forbidden, s)) \<and>
   ((\<exists>u. current_user s = Some u \<and> u_id u = 1) \<longrightarrow>
      fst (add_new_post ev req s) \<noteq> Inl Forbidden \<and>
      fst (edit_post ev i req s) \<noteq> Inl Forbidden \<and>
      fst (delete_post i s) \<noteq> Inl Forbidden)"
proof (intro conjI impI)
  assume no: "\<not> (\<exists>u. current_user s = Some u \<and> u_id u = 1)"
  then have deny: "\<And>f. admin_only f s = (Inl Forbidden, s)"
    by (cases "current_user s") (simp_all add: admin_only_def)
  show "add_new_post ev req s = (Inl Forbidden, s)"
    by (simp add: add_new_post_def deny)
  show "edit_post ev i req s = (Inl Forbidden, s)"
    by (simp add: edit_post_def deny)
  show "delete_post i s = (Inl Forbidden, s)"
    by (simp add: delete_post_def deny)
next
  assume "\<exists>u. current_user s = Some u \<and> u_id u = 1"
  then have allow: "\<And>f. admin_only f s = f s"
    by (auto simp: admin_only_def)
  show "fst (add_new_post ev req s) \<noteq> Inl Forbidden"
    by (simp add: add_new_post_def allow add_post_def Let_def split: sum.splits)
  show "fst (edit_post ev i req s) \<noteq> Inl Forbidden"
    by (simp add: edit_post_def allow update_post_def BlogPost_query_get_def Let_def
        split: option.splits sum.splits)
  show "fst (delete_post i s) \<noteq> Inl Forbidden"
    by (simp add: delete_post_def allow BlogPost_query_get_def split: option.splits)
qed

lemma ex_current_alice: "current_user (ex_app (Some 2)) = Some ex_alice"
  by (simp add: current_user_def load_user_def get_user_def ex_app_def ex_db_def
      ex_admin_def ex_alice_def)

lemma ex_current_admin: "current_user (ex_app (Some 1)) = Some ex_admin"
  by (simp add: current_user_def load_user_def get_user_def ex_app_def ex_db_def
      ex_admin_def ex_alice_def)

lemma ex_current_none: "current_user (ex_app None) = None"
  by (simp add: current_user_def ex_app_def)

theorem admin_only_post_routes_witness:
  "add_new_post ex_env (ex_request POST [] ''T'') (ex_app (Some 2)) = (Inl Forbidden, ex_app (Some 2)) \<and>
   edit_post ex_env 1 (ex_request POST [] ''T'') (ex_app (Some 2)) = (Inl Forbidden, ex_app (Some 2)) \<and>
   delete_post 1 (ex_app (Some 2)) = (Inl Forbidden, ex_app (Some 2)) \<and>
   add_new_post ex_env (ex_request POST [] ''T'') (ex_app None) = (Inl Forbidden, ex_app None) \<and>
   fst (delete_post 1 (ex_app (Some 1))) \<noteq> Inl Forbidden"
proof -
  have alice: "\<not> (\<exists>u. current_user (ex_app (Some 2)) = Some u \<and> u_id u = 1)"
    by (simp add: ex_current_alice ex_alice_def)
  have anon: "\<not> (\<exists>u. current_user (ex_app None) = Some u \<and> u_id u = 1)"
    by (simp add: ex_current_none)
  have admin: "\<exists>u. current_user (ex_app (Some 1)) = Some u \<and> u_id u = 1"
    by (simp add: ex_current_admin ex_admin_def)
  show ?thesis
    using admin_only_post_routes [of "ex_app (Some 2)" ex_env "ex_request POST [] ''T''" 1]
      admin_only_post_routes [of "ex_app None" ex_env "ex_request POST [] ''T''" 1]
      admin_only_post_routes [of "ex_app (Some 1)" ex_env "ex_request POST [] ''T''" 1]
      alice anon admin
    by blast
qed

section \<open>Registration\<close>

text \<open>
  Claim C2. A registration (a POST with the three keys) whose email is the email of
  a user row is answered by the redirect to the login page with the flash message
  of category error, not by a raised IntegrityError, and the whole state is as it
  was: no user row is added and none is changed. A registration with an email of no
  row appends exactly one user row (that email, the hashed password, the name, a
  fresh id), leaves posts and comments alone, and binds the session to the new id,
  so the new user is the current user.
\<close>

theorem register_duplicate_email:
  assumes "req_method req = POST"
    and "map_of (form req) ''email'' = Some e"
    and "map_of (form req) ''password'' = Some pw"
    and "map_of (form req) ''name'' = Some n"
  shows
    "(e \<in> set (map u_email (users (db s))) \<longrightarrow>
        register ev req s =
          (Inr (Redirect ''login'' []
             [Flash ''You've already signed up with that email. Login instead!'' ''error'']), s)) \<and>
     (e \<notin> set (map u_email (users (db s))) \<longrightarrow>
        (let user = \<lparr>u_id = next_id (map u_id (users (db s))), u_email = e,
                     u_password = generate_password_hash ev pw, u_name = n\<rparr>;
             s' = snd (register ev req s)
         in fst (register ev req s) =
              Inr (Redirect ''get_all_posts'' []
                [Flash ''You've been successfully registered and logged in.'' ''success'']) \<and>
            users (db s') = users (db s) @ [user] \<and>
            blog_posts (db s') = blog_posts (db s) \<and>
            comments (db s') = comments (db s) \<and>
            u_id user \<notin> set (map u_id (users (db s))) \<and>
            session s' = Some (u_id user) \<and>
            current_user s' = Some user))"
proof (intro conjI impI)
  assume dup: "e \<in> set (map u_email (users (db s)))"
  then have "add_user e (generate_password_hash ev pw) n (db s) = Inl IntegrityError"
    by (simp add: add_user_def)
  with assms show "register ev req s =
      (Inr (Redirect ''login'' []
         [Flash ''You've already signed up with that email. Login instead!'' ''error'']), s)"
    by (simp add: register_def)
next
  assume new: "e \<notin> set (map u_email (users (db s)))"
  define user where "user = \<lparr>u_id = next_id (map u_id (users (db s))), u_email = e,
                     u_password = generate_password_hash ev pw, u_name = n\<rparr>"
  have add: "add_user e (generate_password_hash ev pw) n (db s) =
      Inr (user, (db s)\<lparr>users := users (db s) @ [user]\<rparr>)"
    using new by (simp add: add_user_def user_def Let_def)
  have reg: "register ev req s =
      (Inr (Redirect ''get_all_posts'' []
         [Flash ''You've been successfully registered and logged in.'' ''success'']),
       login_user user (s\<lparr>db := (db s)\<lparr>users := users (db s) @ [user]\<rparr>\<rparr>))"
    using assms add by (simp add: register_def)
  have uid: "u_id user = next_id (map u_id (users (db s)))"
    by (simp add: user_def)
  have cur: "current_user (login_user user (s\<lparr>db := (db s)\<lparr>users := users (db s) @ [user]\<rparr>\<rparr>)) = Some user"
    using find_snoc_next_id [of u_id user "users (db s)"] uid
    by (simp add: current_user_def login_user_def load_user_def get_user_def)
  have fresh: "u_id user \<notin> set (map u_id (users (db s)))"
    unfolding uid by (rule next_id_notin)
  show "let user = \<lparr>u_id = next_id (map u_id (users (db s))), u_email = e,
                     u_password = generate_password_hash ev pw, u_name = n\<rparr>;
             s' = snd (register ev req s)
         in fst (register ev req s) =
              Inr (Redirect ''get_all_posts'' []
                [Flash ''You've been successfully registered and logged in.'' ''success'']) \<and>
            users (db s') = users (db s) @ [user] \<and>
            blog_posts (db s') = blog_posts (db s) \<and>
            comments (db s') = comments (db s) \<and>
            u_id user \<notin> set (map u_id (users (db s))) \<and>
            session s' = Some (u_id user) \<and>
            current_user s' = Some user"
    unfolding Let_def user_def [symmetric] reg
    using cur fresh by (simp add: login_user_def)
qed

theorem register_duplicate_email_witness:
  "register ex_env
     (ex_request POST [(''email'', ''alice@example.com''), (''password'', ''x''), (''name'', ''A'')] [])
     (ex_app None) =
     (Inr (Redirect ''login'' []
        [Flash ''You've already signed up with that email. Login instead!'' ''error'']),
      ex_app None) \<and>
   users (db (snd (register ex_env
     (ex_request POST [(''email'', ''bob@example.com''), (''password'', ''x''), (''name'', ''Bob'')] [])
     (ex_app None)))) =
     [ex_admin, ex_alice,
      \<lparr>u_id = 3, u_email = ''bob@example.com'', u_password = ''h$x'', u_name = ''Bob''\<rparr>] \<and>
   session (snd (register ex_env
     (ex_request POST [(''email'', ''bob@example.com''), (''password'', ''x''), (''name'', ''Bob'')] [])
     (ex_app None))) = Some 3"
proof -
  let ?dup = "ex_request POST
    [(''email'', ''alice@example.com''), (''password'', ''x''), (''name'', ''A'')] []"
  let ?new = "ex_request POST
    [(''email'', ''bob@example.com''), (''password'', ''x''), (''name'', ''Bob'')] []"
  have taken: "''alice@example.com'' \<in> set (map u_email (users (db (ex_app None))))"
    by (simp add: ex_app_def ex_db_def ex_admin_def ex_alice_def)
  have free: "''bob@example.com'' \<notin> set (map u_email (users (db (ex_app None))))"
    by (simp add: ex_app_def ex_db_def ex_admin_def ex_alice_def)
  have ids: "next_id [u_id ex_admin, u_id ex_alice] = 3"
    by (simp add: next_id_def ex_admin_def ex_alice_def)
  have us: "users (db (ex_app None)) = [ex_admin, ex_alice]"
    by (simp add: ex_app_def ex_db_def)
  have hash: "generate_password_hash ex_env ''x'' = ''h$x''"
    by (simp add: ex_env_def)
  have a: "register ex_env ?dup (ex_app None) =
     (Inr (Redirect ''login'' []
        [Flash ''You've already signed up with that email. Login instead!'' ''error'']),
      ex_app None)"
    using register_duplicate_email
      [of ?dup "''alice@example.com''" "''x''" "''A''" "ex_app None" ex_env] taken
    by (simp add: ex_request_def)
  have b: "users (db (snd (register ex_env ?new (ex_app None)))) =
       [ex_admin, ex_alice,
        \<lparr>u_id = 3, u_email = ''bob@example.com'', u_password = ''h$x'', u_name = ''Bob''\<rparr>] \<and>
     session (snd (register ex_env ?new (ex_app None))) = Some 3"
    using register_duplicate_email
      [of ?new "''bob@example.com''" "''x''" "''Bob''" "ex_app None" ex_env] free
    by (simp add: ex_request_def Let_def ids us hash)
  from a b show ?thesis by simp
qed

lemma keys_unique_empty: "keys_unique \<lparr>users = [], blog_posts = [], comments = []\<rparr>"
  by (simp add: keys_unique_def)

lemma register_keeps_keys_unique:
  assumes "keys_unique (db s)"
  shows "keys_unique (db (snd (register ev req s)))"
  using assms next_id_notin [of "map u_id (users (db s))"]
  by (auto simp: register_def add_user_def keys_unique_def login_user_def Let_def
      split: option.splits)

section \<open>Login and logout\<close>

lemma login_keeps_db: "db (snd (login ev req s)) = db s"
  by (simp add: login_def login_user_def Let_def split: option.splits)

text \<open>
  Claim C3. In a store whose user ids and emails are unique (the schema's
  constraints), a login POST with the email of a user row \<open>u\<close> and a password that
  \<open>check_password_hash\<close> accepts against \<open>u\<close>'s stored hash binds the session to
  \<open>u\<close>'s id, so that \<open>u\<close> is the current user; with a password it rejects, the
  answer is the redirect to the login page with the message that the password is
  incorrect, and the state (session included) is as it was. A login with an email of
  no user row is answered with the other message, that the email does not exist,
  again with the state as it was. The two messages differ, and no login, failed or
  not, changes the database.
\<close>

theorem login_outcomes:
  assumes "req_method req = POST"
    and "map_of (form req) ''email'' = Some e"
  shows
    "(\<forall>u pw. u \<in> set (users (db s)) \<and> u_email u = e \<and>
         distinct (map u_email (users (db s))) \<and> distinct (map u_id (users (db s))) \<and>
         map_of (form req) ''password'' = Some pw \<longrightarrow>
         (if check_password_hash ev (u_password u) pw
          then login ev req s =
                 (Inr (Redirect ''get_all_posts'' [(''logged_in'', BoolArg True)]
                    [Flash ''You've been successfully logged in'' ''success'']),
                  s\<lparr>session := Some (u_id u)\<rparr>) \<and>
               current_user (snd (login ev req s)) = Some u
          else login ev req s =
                 (Inr (Redirect ''login'' []
                    [Flash ''Password is incorrect, Try again.'' ''error'']), s))) \<and>
     (e \<notin> set (map u_email (users (db s))) \<longrightarrow>
        login ev req s =
          (Inr (Redirect ''login'' []
             [Flash ''Email doesn't exist, Try again.'' ''error'']), s)) \<and>
     Flash ''Password is incorrect, Try again.'' ''error'' \<noteq>
       Flash ''Email doesn't exist, Try again.'' ''error'' \<and>
     db (snd (login ev req s)) = db s"
proof (intro conjI allI impI)
  fix u pw
  assume h: "u \<in> set (users (db s)) \<and> u_email u = e \<and>
         distinct (map u_email (users (db s))) \<and> distinct (map u_id (users (db s))) \<and>
         map_of (form req) ''password'' = Some pw"
  then have found: "find (\<lambda>x. u_email x = e) (users (db s)) = Some u"
    using find_key_distinct [of u_email "users (db s)" u] by auto
  from h have by_id: "find (\<lambda>x. u_id x = u_id u) (users (db s)) = Some u"
    using find_key_distinct [of u_id "users (db s)" u] by auto
  have cur: "current_user (s\<lparr>session := Some (u_id u)\<rparr>) = Some u"
    using by_id by (simp add: current_user_def load_user_def get_user_def)
  show "if check_password_hash ev (u_password u) pw
          then login ev req s =
                 (Inr (Redirect ''get_all_posts'' [(''logged_in'', BoolArg True)]
                    [Flash ''You've been successfully logged in'' ''success'']),
                  s\<lparr>session := Some (u_id u)\<rparr>) \<and>
               current_user (snd (login ev req s)) = Some u
          else login ev req s =
                 (Inr (Redirect ''login'' []
                    [Flash ''Password is incorrect, Try again.'' ''error'']), s)"
    using assms h found cur
    by (simp add: login_def login_user_def is_authenticated_def Let_def)
next
  assume "e \<notin> set (map u_email (users (db s)))"
  then have "find (\<lambda>x. u_email x = e) (users (db s)) = None"
    by (rule find_none_key)
  with assms show "login ev req s =
          (Inr (Redirect ''login'' []
             [Flash ''Email doesn't exist, Try again.'' ''error'']), s)"
    by (simp add: login_def)
next
  show "Flash ''Password is incorrect, Try again.'' ''error'' \<noteq>
       Flash ''Email doesn't exist, Try again.'' ''error''"
    by simp
next
  show "db (snd (login ev req s)) = db s"
    by (rule login_keeps_db)
qed

lemma ex_keys_unique: "keys_unique ex_db"
  by (simp add: keys_unique_def ex_db_def ex_admin_def ex_alice_def ex_post_def ex_news_def
      ex_comment_def)

theorem login_outcomes_witness:
  "login ex_env (ex_request POST [(''email'', ''alice@example.com''), (''password'', ''pw'')] [])
     (ex_app None) =
     (Inr (Redirect ''get_all_posts'' [(''logged_in'', BoolArg True)]
        [Flash ''You've been successfully logged in'' ''success'']), ex_app (Some 2)) \<and>
   login ex_env (ex_request POST [(''email'', ''alice@example.com''), (''password'', ''no'')] [])
     (ex_app None) =
     (Inr (Redirect ''login'' [] [Flash ''Password is incorrect, Try again.'' ''error'']),
      ex_app None) \<and>
   login ex_env (ex_request POST [(''email'', ''carol@example.com''), (''password'', ''pw'')] [])
     (ex_app None) =
     (Inr (Redirect ''login'' [] [Flash ''Email doesn't exist, Try again.'' ''error'']),
      ex_app None)"
proof -
  let ?ok = "ex_request POST [(''email'', ''alice@example.com''), (''password'', ''pw'')] []"
  let ?bad = "ex_request POST [(''email'', ''alice@example.com''), (''password'', ''no'')] []"
  let ?who = "ex_request POST [(''email'', ''carol@example.com''), (''password'', ''pw'')] []"
  have row: "ex_alice \<in> set (users (db (ex_app None))) \<and> u_email ex_alice = ''alice@example.com'' \<and>
      distinct (map u_email (users (db (ex_app None)))) \<and>
      distinct (map u_id (users (db (ex_app None))))"
    by (simp add: ex_app_def ex_db_def ex_admin_def ex_alice_def)
  have norow: "''carol@example.com'' \<notin> set (map u_email (users (db (ex_app None))))"
    by (simp add: ex_app_def ex_db_def ex_admin_def ex_alice_def)
  have good: "check_password_hash ex_env (u_password ex_alice) ''pw''"
    by (simp add: ex_env_def ex_alice_def)
  have wrong: "\<not> check_password_hash ex_env (u_password ex_alice) ''no''"
    by (simp add: ex_env_def ex_alice_def)
  have bound: "(ex_app None)\<lparr>session := Some (u_id ex_alice)\<rparr> = ex_app (Some 2)"
    by (simp add: ex_app_def ex_alice_def)
  have a: "login ex_env ?ok (ex_app None) =
     (Inr (Redirect ''get_all_posts'' [(''logged_in'', BoolArg True)]
        [Flash ''You've been successfully logged in'' ''success'']), ex_app (Some 2))"
    using login_outcomes [of ?ok "''alice@example.com''" "ex_app None" ex_env,
        THEN conjunct1, rule_format, of ex_alice "''pw''"] row good bound
    by (simp add: ex_request_def)
  have b: "login ex_env ?bad (ex_app None) =
     (Inr (Redirect ''login'' [] [Flash ''Password is incorrect, Try again.'' ''error'']),
      ex_app None)"
    using login_outcomes [of ?bad "''alice@example.com''" "ex_app None" ex_env,
        THEN conjunct1, rule_format, of ex_alice "''no''"] row wrong
    by (simp add: ex_request_def)
  have c: "login ex_env ?who (ex_app None) =
     (Inr (Redirect ''login'' [] [Flash ''Email doesn't exist, Try again.'' ''error'']),
      ex_app None)"
    using login_outcomes [of ?who "''carol@example.com''" "ex_app None" ex_env] norow
    by (simp add: ex_request_def)
  from a b c show ?thesis by simp
qed

text \<open>
  Claim C9. \<open>logout\<close> has no condition and no error case: it always redirects to
  the index. After it, the current user of the session is none; logging out of the
  logged-out state gives that state again with the same reply; and the database is
  the one before.
\<close>

theorem logout_idempotent:
  "current_user (snd (logout s)) = None \<and>
   fst (logout s) = Inr (Redirect ''get_all_posts'' [] []) \<and>
   logout (snd (logout s)) = logout s \<and>
   db (snd (logout s)) = db s"
  by (simp add: logout_def logout_user_def current_user_def)

theorem logout_idempotent_witness:
  "current_user (snd (logout (ex_app (Some 2)))) = None \<and>
   snd (logout (ex_app (Some 2))) = ex_app None \<and>
   logout (ex_app None) = logout (ex_app (Some 2)) \<and>
   db (snd (logout (ex_app (Some 2)))) = ex_db"
proof -
  have out: "snd (logout (ex_app (Some 2))) = ex_app None"
    by (simp add: logout_def logout_user_def ex_app_def)
  have d: "db (ex_app (Some 2)) = ex_db"
    by (simp add: ex_app_def)
  show ?thesis
    using logout_idempotent [of "ex_app (Some 2)"] out d by simp
qed

section \<open>Comments\<close>

lemma comments_of_add_comment:
  "comments_of (add_comment t a i d) j =
     (if j = i
      then comments_of d i @
        [\<lparr>c_id = next_id (map c_id (comments d)), c_text = t,
          c_author_id = Some a, c_post_id = Some i\<rparr>]
      else comments_of d j)"
  by (simp add: comments_of_def add_comment_def)

lemma fits_sample_ids:
  "fits_sqlite_integer 1" "fits_sqlite_integer 2" "fits_sqlite_integer 7"
  by (simp_all add: fits_sqlite_integer_def)

lemma not_fits_2_63: "\<not> fits_sqlite_integer 9223372036854775808"
  by (simp add: fits_sqlite_integer_def)

text \<open>A post id that is no SQLite integer ends \<open>show_post\<close> at its first query.\<close>

lemma show_post_overflow:
  assumes "\<not> fits_sqlite_integer i"
  shows "show_post i req s = (Inl OverflowError, s)"
  using assms by (simp add: show_post_def Comment_query_filter_by_def)

text \<open>
  Claim C7. The target post is named by an id \<open>i\<close> that the store can hold, a
  64-bit signed integer, as the id of every post row is. A comment POST on \<open>i\<close> by
  a session whose current user is \<open>u\<close>, with text \<open>t\<close>, appends one row to the
  comments of \<open>i\<close>: their number grows by exactly one, the new row has text \<open>t\<close> and
  author \<open>u\<close>, and the comments of every other post id are the same list as before.
  A comment POST on \<open>i\<close> by a session with no current user is answered by the
  redirect to the login page with the flash message that one must register or log
  in, and the state, so every comment count, is as it was.
\<close>

theorem show_post_comment_counts:
  assumes "req_method req = POST"
    and "fits_sqlite_integer i"
  shows
    "(\<forall>u t. current_user s = Some u \<and> map_of (form req) ''comment'' = Some t \<longrightarrow>
        fst (show_post i req s) = Inr (Redirect ''show_post'' [(''post_id'', IntArg i)] []) \<and>
        length (comments_of (db (snd (show_post i req s))) i) =
          Suc (length (comments_of (db s) i)) \<and>
        comments_of (db (snd (show_post i req s))) i =
          comments_of (db s) i @
            [\<lparr>c_id = next_id (map c_id (comments (db s))), c_text = t,
              c_author_id = Some (u_id u), c_post_id = Some i\<rparr>] \<and>
        (\<forall>j. j \<noteq> i \<longrightarrow>
           comments_of (db (snd (show_post i req s))) j = comments_of (db s) j)) \<and>
     (current_user s = None \<longrightarrow>
        show_post i req s =
          (Inr (Redirect ''login'' []
             [Flash ''You need to Register or Login to comment'' ''error'']), s))"
proof (intro conjI allI impI)
  fix u t
  assume h: "current_user s = Some u \<and> map_of (form req) ''comment'' = Some t"
  with assms have run: "show_post i req s =
      (Inr (Redirect ''show_post'' [(''post_id'', IntArg i)] []),
       s\<lparr>db := add_comment t (u_id u) i (db s)\<rparr>)"
    by (simp add: show_post_def Comment_query_filter_by_def)
  show "fst (show_post i req s) = Inr (Redirect ''show_post'' [(''post_id'', IntArg i)] [])"
    by (simp add: run)
  show "length (comments_of (db (snd (show_post i req s))) i) =
          Suc (length (comments_of (db s) i))"
    by (simp add: run comments_of_add_comment)
  show "comments_of (db (snd (show_post i req s))) i =
          comments_of (db s) i @
            [\<lparr>c_id = next_id (map c_id (comments (db s))), c_text = t,
              c_author_id = Some (u_id u), c_post_id = Some i\<rparr>]"
    by (simp add: run comments_of_add_comment)
  show "\<And>j. j \<noteq> i \<Longrightarrow>
      comments_of (db (snd (show_post i req s))) j = comments_of (db s) j"
    by (simp add: run comments_of_add_comment)
next
  assume "current_user s = None"
  with assms show "show_post i req s =
          (Inr (Redirect ''login'' []
             [Flash ''You need to Register or Login to comment'' ''error'']), s)"
    by (simp add: show_post_def Comment_query_filter_by_def)
qed

theorem show_post_comment_counts_witness:
  "length (comments_of (db (snd (show_post 1
      (ex_request POST [(''comment'', ''Thanks'')] []) (ex_app (Some 2))))) 1) = 2 \<and>
   length (comments_of (db (snd (show_post 1
      (ex_request POST [(''comment'', ''Thanks'')] []) (ex_app (Some 2))))) 2) = 0 \<and>
   show_post 1 (ex_request POST [(''comment'', ''Thanks'')] []) (ex_app None) =
     (Inr (Redirect ''login'' []
        [Flash ''You need to Register or Login to comment'' ''error'']), ex_app None)"
proof -
  let ?req = "ex_request POST [(''comment'', ''Thanks'')] []"
  have post: "req_method ?req = POST"
    by (simp add: ex_request_def)
  have key: "current_user (ex_app (Some 2)) = Some ex_alice \<and>
      map_of (form ?req) ''comment'' = Some ''Thanks''"
    by (simp add: ex_current_alice ex_request_def)
  have before: "length (comments_of (db (ex_app (Some 2))) 1) = 1 \<and>
      length (comments_of (db (ex_app (Some 2))) 2) = 0"
    by (simp add: comments_of_def ex_app_def ex_db_def ex_comment_def)
  note auth = show_post_comment_counts [OF post fits_sample_ids(1), of "ex_app (Some 2)"]
  note anon = show_post_comment_counts [OF post fits_sample_ids(1), of "ex_app None"]
  have a: "length (comments_of (db (snd (show_post 1 ?req (ex_app (Some 2))))) 1) = 2"
    using auth [THEN conjunct1, rule_format, OF key] before by simp
  have b: "length (comments_of (db (snd (show_post 1 ?req (ex_app (Some 2))))) 2) = 0"
    using auth [THEN conjunct1, rule_format, OF key] before by simp
  have c: "show_post 1 ?req (ex_app None) =
     (Inr (Redirect ''login'' []
        [Flash ''You need to Register or Login to comment'' ''error'']), ex_app None)"
    using anon ex_current_none by simp
  from a b c show ?thesis by simp
qed

text \<open>
  Claim C10, as it fails. Alice is logged in and posts a comment to post id
  9223372036854775808, that is \<open>2 ^ 63\<close>, an id the URL converter accepts. The first query of \<open>show_post\<close> raises
  OverflowError: no comment is inserted, the table of comments is the one before.
\<close>

theorem show_post_dangling_comment_counterexample:
  "current_user (ex_app (Some 2)) = Some ex_alice \<and>
   show_post 9223372036854775808 (ex_request POST [(''comment'', ''lost'')] []) (ex_app (Some 2)) =
     (Inl OverflowError, ex_app (Some 2)) \<and>
   comments (db (snd (show_post 9223372036854775808 (ex_request POST [(''comment'', ''lost'')] [])
     (ex_app (Some 2))))) = [ex_comment]"
proof -
  have run: "show_post 9223372036854775808 (ex_request POST [(''comment'', ''lost'')] []) (ex_app (Some 2)) =
      (Inl OverflowError, ex_app (Some 2))"
    by (rule show_post_overflow [OF not_fits_2_63])
  have rows: "comments (db (ex_app (Some 2))) = [ex_comment]"
    by (simp add: ex_app_def ex_db_def)
  show ?thesis
    by (simp add: run rows ex_current_alice)
qed

text \<open>
  Claim C10, amended. For a post id \<open>i\<close> that is a 64-bit signed integer, a
  comment POST by an authenticated session inserts the comment with parent id \<open>i\<close>
  whatever the table of posts holds: the new table of comments depends on the old
  one, the text, the user and \<open>i\<close> only. When no post has id \<open>i\<close> the store
  afterwards does not satisfy \<open>parent_posts_present\<close>, so the insertion does not
  preserve that invariant: the sample request adds a comment on post 7 to a store
  that satisfies it and has no such post.
\<close>

theorem show_post_dangling_comment:
  assumes "req_method req = POST"
    and "current_user s = Some u"
    and "map_of (form req) ''comment'' = Some t"
    and "fits_sqlite_integer i"
  shows
    "comments (db (snd (show_post i req s))) =
       comments (db s) @
         [\<lparr>c_id = next_id (map c_id (comments (db s))), c_text = t,
           c_author_id = Some (u_id u), c_post_id = Some i\<rparr>] \<and>
     blog_posts (db (snd (show_post i req s))) = blog_posts (db s) \<and>
     (get_post (db s) i = None \<longrightarrow> \<not> parent_posts_present (db (snd (show_post i req s))))"
proof -
  from assms have run: "show_post i req s =
      (Inr (Redirect ''show_post'' [(''post_id'', IntArg i)] []),
       s\<lparr>db := add_comment t (u_id u) i (db s)\<rparr>)"
    by (simp add: show_post_def Comment_query_filter_by_def)
  have "get_post (add_comment t (u_id u) i (db s)) i = get_post (db s) i"
    by (simp add: get_post_def add_comment_def)
  then have "get_post (db s) i = None \<Longrightarrow>
      \<not> parent_posts_present (add_comment t (u_id u) i (db s))"
    by (simp add: parent_posts_present_def add_comment_def get_post_def)
  then show ?thesis
    by (auto simp: run add_comment_def)
qed

theorem show_post_dangling_comment_witness:
  "parent_posts_present (db (ex_app (Some 2))) \<and>
   get_post (db (ex_app (Some 2))) 7 = None \<and>
   \<not> parent_posts_present
       (db (snd (show_post 7 (ex_request POST [(''comment'', ''lost'')] []) (ex_app (Some 2))))) \<and>
   comments (db (snd (show_post 7 (ex_request POST [(''comment'', ''lost'')] []) (ex_app (Some 2))))) =
     [ex_comment, \<lparr>c_id = 2, c_text = ''lost'', c_author_id = Some 2, c_post_id = Some 7\<rparr>]"
proof -
  let ?req = "ex_request POST [(''comment'', ''lost'')] []"
  have post: "req_method ?req = POST"
    by (simp add: ex_request_def)
  have key: "map_of (form ?req) ''comment'' = Some ''lost''"
    by (simp add: ex_request_def)
  have inv: "parent_posts_present (db (ex_app (Some 2)))"
    by (simp add: parent_posts_present_def get_post_def ex_app_def ex_db_def ex_comment_def
        ex_post_def ex_news_def)
  have none: "get_post (db (ex_app (Some 2))) 7 = None"
    by (simp add: get_post_def ex_app_def ex_db_def ex_post_def ex_news_def)
  have rows: "comments (db (ex_app (Some 2))) = [ex_comment]"
    by (simp add: ex_app_def ex_db_def)
  have nid: "next_id [c_id ex_comment] = 2"
    by (simp add: next_id_def ex_comment_def)
  have uid: "u_id ex_alice = 2"
    by (simp add: ex_alice_def)
  show ?thesis
    using show_post_dangling_comment [OF post ex_current_alice key fits_sample_ids(3)] inv none
    by (simp add: rows nid uid)
qed

section \<open>Deleting a post\<close>

lemma find_filter_other_keys:
  "find (\<lambda>x. k x = j) (filter (\<lambda>x. k x \<noteq> i) xs) =
     (if j = i then None else find (\<lambda>x. k x = j) xs)"
  by (induction xs) auto

lemma length_filter_other_keys:
  assumes "distinct (map k xs)" and "x \<in> set xs"
  shows "Suc (length (filter (\<lambda>y. k y \<noteq> k x) xs)) = length xs"
  using assms
proof (induction xs)
  case Nil
  then show ?case by simp
next
  case (Cons a xs)
  show ?case
  proof (cases "k a = k x")
    case True
    with Cons.prems have "\<And>y. y \<in> set xs \<Longrightarrow> k y \<noteq> k x"
      by (auto simp: image_iff)
    then have "filter (\<lambda>y. k y \<noteq> k x) xs = xs"
      by (simp add: filter_id_conv)
    with True show ?thesis by simp
  next
    case False
    with Cons.prems have "x \<in> set xs" and "distinct (map k xs)"
      by auto
    with Cons.IH False show ?thesis by simp
  qed
qed

text \<open>
  Claim C8. For the user with id 1 and a post id \<open>i\<close> of the store (an id the store
  can hold, a 64-bit signed integer), \<open>delete_post\<close> removes the post with id \<open>i\<close>
  and no other post (one row less when ids are unique; every other id looks up the
  same post), and removes no comment: the table of comments has the same rows by id,
  text and author, in the same order, as before. A comment of another post is the
  same row; a comment of the deleted post is still a row, its parent reference
  cleared. Users and session are untouched. Were \<open>i\<close> no 64-bit integer, which the
  id of a row never is, the query would raise OverflowError and change nothing.
\<close>

theorem delete_post_keeps_comments:
  assumes "current_user s = Some u" and "u_id u = 1"
    and "get_post (db s) i = Some post"
  shows
    "(fits_sqlite_integer i \<longrightarrow>
      (let s' = snd (delete_post i s) in
       fst (delete_post i s) = Inr (Redirect ''get_all_posts'' [] []) \<and>
       blog_posts (db s') = filter (\<lambda>p. p_id p \<noteq> i) (blog_posts (db s)) \<and>
       get_post (db s') i = None \<and>
       (\<forall>j. j \<noteq> i \<longrightarrow> get_post (db s') j = get_post (db s) j) \<and>
       (distinct (map p_id (blog_posts (db s))) \<longrightarrow>
          Suc (length (blog_posts (db s'))) = length (blog_posts (db s))) \<and>
       length (comments (db s')) = length (comments (db s)) \<and>
       map c_id (comments (db s')) = map c_id (comments (db s)) \<and>
       map c_text (comments (db s')) = map c_text (comments (db s)) \<and>
       map c_author_id (comments (db s')) = map c_author_id (comments (db s)) \<and>
       (\<forall>c \<in> set (comments (db s)).
          (if c_post_id c = Some i then c\<lparr>c_post_id := None\<rparr> else c) \<in> set (comments (db s'))) \<and>
       users (db s') = users (db s) \<and>
       session s' = session s)) \<and>
     (\<not> fits_sqlite_integer i \<longrightarrow> delete_post i s = (Inl OverflowError, s))"
proof (intro conjI impI)
  assume fits: "fits_sqlite_integer i"
  from assms(3) have key: "p_id post = i" and row: "post \<in> set (blog_posts (db s))"
    using find_some_key [of p_id i "blog_posts (db s)" post] by (simp_all add: get_post_def)
  from assms fits have run: "delete_post i s =
      (Inr (Redirect ''get_all_posts'' [] []), s\<lparr>db := delete_row i (db s)\<rparr>)"
    by (simp add: delete_post_def admin_only_def BlogPost_query_get_def key)
  have gone: "get_post (delete_row i (db s)) j =
      (if j = i then None else get_post (db s) j)" for j
    by (simp add: get_post_def delete_row_def find_filter_other_keys)
  have fewer: "distinct (map p_id (blog_posts (db s))) \<Longrightarrow>
      Suc (length (blog_posts (delete_row i (db s)))) = length (blog_posts (db s))"
    using length_filter_other_keys [of p_id "blog_posts (db s)" post] row key
    by (simp add: delete_row_def)
  have ids: "map c_id (comments (delete_row i (db s))) = map c_id (comments (db s))"
    by (simp add: delete_row_def comp_def if_distrib cong: if_cong)
  have texts: "map c_text (comments (delete_row i (db s))) = map c_text (comments (db s))"
    by (simp add: delete_row_def comp_def if_distrib cong: if_cong)
  have authors: "map c_author_id (comments (delete_row i (db s))) =
      map c_author_id (comments (db s))"
    by (simp add: delete_row_def comp_def if_distrib cong: if_cong)
  have rows: "\<forall>c \<in> set (comments (db s)).
      (if c_post_id c = Some i then c\<lparr>c_post_id := None\<rparr> else c)
        \<in> set (comments (delete_row i (db s)))"
    by (simp add: delete_row_def)
  have rest: "blog_posts (delete_row i (db s)) = filter (\<lambda>p. p_id p \<noteq> i) (blog_posts (db s))"
      "length (comments (delete_row i (db s))) = length (comments (db s))"
      "users (delete_row i (db s)) = users (db s)"
    by (simp_all add: delete_row_def)
  show "let s' = snd (delete_post i s) in
       fst (delete_post i s) = Inr (Redirect ''get_all_posts'' [] []) \<and>
       blog_posts (db s') = filter (\<lambda>p. p_id p \<noteq> i) (blog_posts (db s)) \<and>
       get_post (db s') i = None \<and>
       (\<forall>j. j \<noteq> i \<longrightarrow> get_post (db s') j = get_post (db s) j) \<and>
       (distinct (map p_id (blog_posts (db s))) \<longrightarrow>
          Suc (length (blog_posts (db s'))) = length (blog_posts (db s))) \<and>
       length (comments (db s')) = length (comments (db s)) \<and>
       map c_id (comments (db s')) = map c_id (comments (db s)) \<and>
       map c_text (comments (db s')) = map c_text (comments (db s)) \<and>
       map c_author_id (comments (db s')) = map c_author_id (comments (db s)) \<and>
       (\<forall>c \<in> set (comments (db s)).
          (if c_post_id c = Some i then c\<lparr>c_post_id := None\<rparr> else c) \<in> set (comments (db s'))) \<and>
       users (db s') = users (db s) \<and>
       session s' = session s"
    unfolding Let_def run
    using gone fewer ids texts authors rows rest by simp
next
  assume "\<not> fits_sqlite_integer i"
  with assms(1,2) show "delete_post i s = (Inl OverflowError, s)"
    by (simp add: delete_post_def admin_only_def BlogPost_query_get_def)
qed

theorem delete_post_keeps_comments_witness:
  "blog_posts (db (snd (delete_post 1 (ex_app (Some 1))))) = [ex_news] \<and>
   map c_id (comments (db (snd (delete_post 1 (ex_app (Some 1)))))) = [1] \<and>
   map c_text (comments (db (snd (delete_post 1 (ex_app (Some 1)))))) = [''Nice post!''] \<and>
   ex_comment\<lparr>c_post_id := None\<rparr> \<in> set (comments (db (snd (delete_post 1 (ex_app (Some 1))))))"
proof -
  have admin: "u_id ex_admin = 1"
    by (simp add: ex_admin_def)
  have there: "get_post (db (ex_app (Some 1))) 1 = Some ex_post"
    by (simp add: get_post_def ex_app_def ex_db_def ex_post_def)
  have start: "blog_posts (db (ex_app (Some 1))) = [ex_post, ex_news]"
      "comments (db (ex_app (Some 1))) = [ex_comment]"
    by (simp_all add: ex_app_def ex_db_def)
  have vals: "p_id ex_post = 1" "p_id ex_news = 2" "c_id ex_comment = 1"
      "c_text ex_comment = ''Nice post!''" "c_post_id ex_comment = Some 1"
    by (simp_all add: ex_post_def ex_news_def ex_comment_def)
  show ?thesis
    using delete_post_keeps_comments [OF ex_current_admin admin there, THEN conjunct1,
        rule_format, OF fits_sample_ids(1)]
    by (simp add: Let_def start vals)
qed

section \<open>Creating and editing a post\<close>

lemma strftime_nonempty: "strftime_B_d_Y dt \<noteq> []"
  by (simp add: strftime_B_d_Y_def)

lemma ex_today: "strftime_B_d_Y (today ex_env) = ''March 05, 2024''"
  by (simp add: strftime_B_d_Y_def ex_env_def decimal.simps [of 5] decimal.simps [of 2024]
      decimal.simps [of 202] decimal.simps [of 20] decimal.simps [of 2])

text \<open>
  Claim C5, as it fails. The post table holds a post titled News; the administrator
  submits a valid form with that title. The INSERT breaks the unique title, the
  commit raises IntegrityError, nothing catches it, and no post is created: the
  state is as it was, and the id the new post would have had is still free.
\<close>

theorem add_new_post_counterexample:
  "current_user (ex_app (Some 1)) = Some ex_admin \<and> u_id ex_admin = 1 \<and>
   validate ex_env (bound_form (ex_request POST [] ''News'')) \<and>
   add_new_post ex_env (ex_request POST [] ''News'') (ex_app (Some 1)) =
     (Inl IntegrityError, ex_app (Some 1)) \<and>
   get_post (db (snd (add_new_post ex_env (ex_request POST [] ''News'') (ex_app (Some 1))))) 3 = None"
proof -
  have allow: "\<And>f. admin_only f (ex_app (Some 1)) = f (ex_app (Some 1))"
    by (simp add: admin_only_def ex_current_admin ex_admin_def)
  have valid: "validate ex_env (ex_form ''News'')"
    by (simp add: ex_env_def ex_form_def)
  have taken: "f_title (ex_form ''News'') \<in> set (map p_title (blog_posts (db (ex_app (Some 1)))))"
    by (simp add: ex_form_def ex_app_def ex_db_def ex_post_def ex_news_def)
  then have add: "\<And>a dt. add_post (ex_form ''News'') a dt (db (ex_app (Some 1))) = Inl IntegrityError"
    by (simp add: add_post_def)
  have run: "add_new_post ex_env (ex_request POST [] ''News'') (ex_app (Some 1)) =
      (Inl IntegrityError, ex_app (Some 1))"
    by (simp add: add_new_post_def allow validate_on_submit_def CreatePostForm_def
        ex_request_def valid add)
  have free: "get_post (db (ex_app (Some 1))) 3 = None"
    by (simp add: get_post_def ex_app_def ex_db_def ex_post_def ex_news_def)
  have ok: "validate ex_env (bound_form (ex_request POST [] ''News''))"
    by (simp add: ex_env_def ex_request_def ex_form_def)
  show ?thesis
    by (simp add: run free ok ex_current_admin ex_admin_def)
qed

text \<open>
  Claim C5, amended. When the user with id 1 submits (POST) a form with title \<open>T\<close>,
  subtitle \<open>S\<close>, body \<open>B\<close> and image URL \<open>U\<close> that passes the form's validators,
  and no post of the store has title \<open>T\<close>, then \<open>add_new_post\<close> redirects to the
  index and appends one post; looking up the id the store assigned it (an id no post
  had) gives a post with exactly those four fields, the acting user as author, and
  as date the string \<open>strftime_B_d_Y\<close> makes of the day of the call, which is not
  empty.
\<close>

theorem add_new_post_then_get:
  assumes "current_user s = Some u" and "u_id u = 1"
    and "req_method req = POST"
    and "bound_form req = \<lparr>f_title = T, f_subtitle = S, f_img_url = U, f_body = B\<rparr>"
    and "validate ev (bound_form req)"
    and "T \<notin> set (map p_title (blog_posts (db s)))"
  shows
    "(let new_id = next_id (map p_id (blog_posts (db s)));
          new_post = \<lparr>p_id = new_id, p_title = T, p_subtitle = S,
                      p_date = strftime_B_d_Y (today ev), p_body = B, p_img_url = U,
                      p_author_id = Some (u_id u)\<rparr>;
          s' = snd (add_new_post ev req s)
      in fst (add_new_post ev req s) = Inr (Redirect ''get_all_posts'' [] []) \<and>
         get_post (db s) new_id = None \<and>
         get_post (db s') new_id = Some new_post \<and>
         blog_posts (db s') = blog_posts (db s) @ [new_post] \<and>
         p_date new_post \<noteq> [])"
proof -
  define new_post where "new_post =
    \<lparr>p_id = next_id (map p_id (blog_posts (db s))), p_title = T, p_subtitle = S,
     p_date = strftime_B_d_Y (today ev), p_body = B, p_img_url = U,
     p_author_id = Some (u_id u)\<rparr>"
  have pid: "p_id new_post = next_id (map p_id (blog_posts (db s)))"
    by (simp add: new_post_def)
  have add: "add_post (bound_form req) (Some (u_id u)) (strftime_B_d_Y (today ev)) (db s) =
      Inr (new_post, (db s)\<lparr>blog_posts := blog_posts (db s) @ [new_post]\<rparr>)"
    using assms(4,6) by (simp add: add_post_def new_post_def Let_def)
  have run: "add_new_post ev req s =
      (Inr (Redirect ''get_all_posts'' [] []),
       s\<lparr>db := (db s)\<lparr>blog_posts := blog_posts (db s) @ [new_post]\<rparr>\<rparr>)"
    using assms(1,2,3,5) add
    by (simp add: add_new_post_def admin_only_def validate_on_submit_def CreatePostForm_def)
  have before: "get_post (db s) (next_id (map p_id (blog_posts (db s)))) = None"
    by (simp add: get_post_def find_next_id)
  have after: "get_post ((db s)\<lparr>blog_posts := blog_posts (db s) @ [new_post]\<rparr>)
      (next_id (map p_id (blog_posts (db s)))) = Some new_post"
    using find_snoc_next_id [of p_id new_post "blog_posts (db s)"] pid
    by (simp add: get_post_def)
  have stamp: "p_date new_post \<noteq> []"
    by (simp add: new_post_def strftime_nonempty)
  show ?thesis
    unfolding Let_def new_post_def [symmetric] run
    using before after stamp by simp
qed

theorem add_new_post_then_get_witness:
  "get_post (db (snd (add_new_post ex_env (ex_request POST [] ''T'') (ex_app (Some 1))))) 3 =
     Some \<lparr>p_id = 3, p_title = ''T'', p_subtitle = ''S'', p_date = ''March 05, 2024'',
           p_body = ''B'', p_img_url = ''U'', p_author_id = Some 1\<rparr>"
proof -
  have admin: "u_id ex_admin = 1"
    by (simp add: ex_admin_def)
  have post: "req_method (ex_request POST [] ''T'') = POST"
    by (simp add: ex_request_def)
  have fields: "bound_form (ex_request POST [] ''T'') =
      \<lparr>f_title = ''T'', f_subtitle = ''S'', f_img_url = ''U'', f_body = ''B''\<rparr>"
    by (simp add: ex_request_def ex_form_def)
  have ok: "validate ex_env (bound_form (ex_request POST [] ''T''))"
    by (simp add: ex_env_def ex_request_def ex_form_def)
  have free: "''T'' \<notin> set (map p_title (blog_posts (db (ex_app (Some 1)))))"
    by (simp add: ex_app_def ex_db_def ex_post_def ex_news_def)
  have nid: "next_id (map p_id (blog_posts (db (ex_app (Some 1))))) = 3"
    by (simp add: next_id_def ex_app_def ex_db_def ex_post_def ex_news_def)
  show ?thesis
    using add_new_post_then_get [OF ex_current_admin admin post fields ok free]
    by (simp add: Let_def nid ex_today admin)
qed

lemma find_map_same_keys:
  assumes "\<And>x. k (g x) = k x"
  shows "find (\<lambda>x. k x = j) (map (\<lambda>x. if k x = i then g x else x) xs) =
     map_option (\<lambda>x. if j = i then g x else x) (find (\<lambda>x. k x = j) xs)"
  using assms by (induction xs) auto

text \<open>
  Claim C6, as it fails. Posts 1 (Hello World) and 2 (News) are in the store; the
  administrator submits a valid edit of post 2 that retitles it Hello World. The
  UPDATE breaks the unique title, the commit raises IntegrityError, and the fields
  of post 2 are not replaced: the state is as it was.
\<close>

theorem edit_post_counterexample:
  "current_user (ex_app (Some 1)) = Some ex_admin \<and> u_id ex_admin = 1 \<and>
   get_post (db (ex_app (Some 1))) 2 = Some ex_news \<and>
   validate ex_env (bound_form (ex_request POST [] ''Hello World'')) \<and>
   edit_post ex_env 2 (ex_request POST [] ''Hello World'') (ex_app (Some 1)) =
     (Inl IntegrityError, ex_app (Some 1)) \<and>
   get_post (db (snd (edit_post ex_env 2 (ex_request POST [] ''Hello World'') (ex_app (Some 1))))) 2 =
     Some ex_news \<and>
   p_title ex_news \<noteq> ''Hello World''"
proof -
  have allow: "\<And>f. admin_only f (ex_app (Some 1)) = f (ex_app (Some 1))"
    by (simp add: admin_only_def ex_current_admin ex_admin_def)
  have there: "get_post (db (ex_app (Some 1))) 2 = Some ex_news"
    by (simp add: get_post_def ex_app_def ex_db_def ex_post_def ex_news_def)
  then have query: "BlogPost_query_get (db (ex_app (Some 1))) 2 = Inr (Some ex_news)"
    by (simp add: BlogPost_query_get_def fits_sample_ids)
  have valid: "validate ex_env (ex_form ''Hello World'')"
    by (simp add: ex_env_def ex_form_def)
  have taken: "f_title (ex_form ''Hello World'') \<in>
      set (map p_title (filter (\<lambda>p. p_id p \<noteq> 2) (blog_posts (db (ex_app (Some 1))))))"
    by (simp add: ex_form_def ex_app_def ex_db_def ex_post_def ex_news_def)
  then have upd: "update_post 2 (ex_form ''Hello World'') (db (ex_app (Some 1))) = Inl IntegrityError"
    by (simp add: update_post_def)
  have key: "p_id ex_news = 2"
    by (simp add: ex_news_def)
  have run: "edit_post ex_env 2 (ex_request POST [] ''Hello World'') (ex_app (Some 1)) =
      (Inl IntegrityError, ex_app (Some 1))"
    by (simp add: edit_post_def allow query validate_on_submit_def CreatePostForm_def
        ex_request_def valid upd key)
  have title: "p_title ex_news \<noteq> ''Hello World''"
    by (simp add: ex_news_def)
  have ok: "validate ex_env (bound_form (ex_request POST [] ''Hello World''))"
    by (simp add: ex_request_def valid)
  have admin: "u_id ex_admin = 1"
    by (simp add: ex_admin_def)
  show ?thesis
    by (simp add: run there title ex_current_admin admin ok)
qed

text \<open>
  Claim C6, amended. When the user with id 1 submits (POST) a form that passes the
  form's validators for a post id \<open>i\<close> of the store (an id the store can hold, a
  64-bit signed integer), and no other post has the submitted title, then
  \<open>edit_post\<close> replaces the title, subtitle, image URL and body of post \<open>i\<close> by the
  submitted ones and redirects to the post. The post keeps its id, author and date;
  every other post id looks up the same post as before, every row with another id is
  the same row at the same place, and users, comments and session are untouched.
  Were \<open>i\<close> no 64-bit integer, which the id of a row never is, the query would raise
  OverflowError and change nothing.
\<close>

theorem edit_post_frame:
  assumes "current_user s = Some u" and "u_id u = 1"
    and "req_method req = POST"
    and "validate ev (bound_form req)"
    and "get_post (db s) i = Some post"
    and "f_title (bound_form req) \<notin>
           set (map p_title (filter (\<lambda>p. p_id p \<noteq> i) (blog_posts (db s))))"
  shows
    "(fits_sqlite_integer i \<longrightarrow>
      (let f = bound_form req;
           post' = post\<lparr>p_title := f_title f, p_subtitle := f_subtitle f,
                        p_img_url := f_img_url f, p_body := f_body f\<rparr>;
           s' = snd (edit_post ev i req s)
       in fst (edit_post ev i req s) = Inr (Redirect ''show_post'' [(''post_id'', IntArg i)] []) \<and>
          get_post (db s') i = Some post' \<and>
          p_id post' = i \<and> p_author_id post' = p_author_id post \<and> p_date post' = p_date post \<and>
          (\<forall>j. j \<noteq> i \<longrightarrow> get_post (db s') j = get_post (db s) j) \<and>
          length (blog_posts (db s')) = length (blog_posts (db s)) \<and>
          (\<forall>n < length (blog_posts (db s)).
             p_id (blog_posts (db s) ! n) \<noteq> i \<longrightarrow>
             blog_posts (db s') ! n = blog_posts (db s) ! n) \<and>
          users (db s') = users (db s) \<and>
          comments (db s') = comments (db s) \<and>
          session s' = session s)) \<and>
     (\<not> fits_sqlite_integer i \<longrightarrow> edit_post ev i req s = (Inl OverflowError, s))"
proof (intro conjI impI)
  assume fits: "fits_sqlite_integer i"
  define f where "f = bound_form req"
  define g where "g = (\<lambda>p::BlogPost. p\<lparr>p_title := f_title f, p_subtitle := f_subtitle f,
                       p_img_url := f_img_url f, p_body := f_body f\<rparr>)"
  define d' where "d' = (db s)\<lparr>blog_posts :=
      map (\<lambda>p. if p_id p = i then g p else p) (blog_posts (db s))\<rparr>"
  from assms(5) have key: "p_id post = i"
    using find_some_key [of p_id i "blog_posts (db s)" post] by (simp add: get_post_def)
  from assms(5) fits have query: "BlogPost_query_get (db s) i = Inr (Some post)"
    by (simp add: BlogPost_query_get_def)
  have upd: "update_post i f (db s) = Inr d'"
    using assms(6) by (simp add: update_post_def f_def d'_def g_def)
  have run: "edit_post ev i req s =
      (Inr (Redirect ''show_post'' [(''post_id'', IntArg i)] []), s\<lparr>db := d'\<rparr>)"
    using assms(1-4) query upd key
    by (simp add: edit_post_def admin_only_def validate_on_submit_def CreatePostForm_def f_def)
  have look: "get_post d' j = map_option (\<lambda>p. if j = i then g p else p) (get_post (db s) j)" for j
    using find_map_same_keys [of p_id g j i "blog_posts (db s)"]
    by (simp add: get_post_def d'_def g_def)
  have same: "get_post d' i = Some (g post)"
    using look [of i] assms(5) by simp
  have other: "\<forall>j. j \<noteq> i \<longrightarrow> get_post d' j = get_post (db s) j"
    using look by (simp add: option.map_ident)
  have rows: "\<forall>n < length (blog_posts (db s)).
      p_id (blog_posts (db s) ! n) \<noteq> i \<longrightarrow> blog_posts d' ! n = blog_posts (db s) ! n"
    by (simp add: d'_def)
  have rest: "length (blog_posts d') = length (blog_posts (db s))"
      "users d' = users (db s)" "comments d' = comments (db s)"
    by (simp_all add: d'_def)
  have kept: "p_id (g post) = i" "p_author_id (g post) = p_author_id post"
      "p_date (g post) = p_date post"
    by (simp_all add: g_def key)
  show "let f = bound_form req;
           post' = post\<lparr>p_title := f_title f, p_subtitle := f_subtitle f,
                        p_img_url := f_img_url f, p_body := f_body f\<rparr>;
           s' = snd (edit_post ev i req s)
       in fst (edit_post ev i req s) = Inr (Redirect ''show_post'' [(''post_id'', IntArg i)] []) \<and>
          get_post (db s') i = Some post' \<and>
          p_id post' = i \<and> p_author_id post' = p_author_id post \<and> p_date post' = p_date post \<and>
          (\<forall>j. j \<noteq> i \<longrightarrow> get_post (db s') j = get_post (db s) j) \<and>
          length (blog_posts (db s')) = length (blog_posts (db s)) \<and>
          (\<forall>n < length (blog_posts (db s)).
             p_id (blog_posts (db s) ! n) \<noteq> i \<longrightarrow>
             blog_posts (db s') ! n = blog_posts (db s) ! n) \<and>
          users (db s') = users (db s) \<and>
          comments (db s') = comments (db s) \<and>
          session s' = session s"
    unfolding Let_def f_def [symmetric] run
    using same other rows rest kept by (simp add: g_def)
next
  assume "\<not> fits_sqlite_integer i"
  with assms(1,2) show "edit_post ev i req s = (Inl OverflowError, s)"
    by (simp add: edit_post_def admin_only_def BlogPost_query_get_def)
qed

theorem edit_post_frame_witness:
  "get_post (db (snd (edit_post ex_env 2 (ex_request POST [] ''T'') (ex_app (Some 1))))) 2 =
     Some \<lparr>p_id = 2, p_title = ''T'', p_subtitle = ''S'', p_date = ''March 05, 2024'',
           p_body = ''B'', p_img_url = ''U'', p_author_id = Some 1\<rparr> \<and>
   get_post (db (snd (edit_post ex_env 2 (ex_request POST [] ''T'') (ex_app (Some 1))))) 1 =
     Some ex_post \<and>
   comments (db (snd (edit_post ex_env 2 (ex_request POST [] ''T'') (ex_app (Some 1))))) =
     [ex_comment]"
proof -
  have admin: "u_id ex_admin = 1"
    by (simp add: ex_admin_def)
  have post: "req_method (ex_request POST [] ''T'') = POST"
    by (simp add: ex_request_def)
  have ok: "validate ex_env (bound_form (ex_request POST [] ''T''))"
    by (simp add: ex_env_def ex_request_def ex_form_def)
  have there: "get_post (db (ex_app (Some 1))) 2 = Some ex_news"
    by (simp add: get_post_def ex_app_def ex_db_def ex_post_def ex_news_def)
  have first: "get_post (db (ex_app (Some 1))) 1 = Some ex_post"
    by (simp add: get_post_def ex_app_def ex_db_def ex_post_def ex_news_def)
  have free: "f_title (bound_form (ex_request POST [] ''T'')) \<notin>
      set (map p_title (filter (\<lambda>p. p_id p \<noteq> 2) (blog_posts (db (ex_app (Some 1))))))"
    by (simp add: ex_request_def ex_form_def ex_app_def ex_db_def ex_post_def ex_news_def)
  have cs: "comments (db (ex_app (Some 1))) = [ex_comment]"
    by (simp add: ex_app_def ex_db_def)
  have new: "ex_news\<lparr>p_title := ''T'', p_subtitle := ''S'', p_img_url := ''U'', p_body := ''B''\<rparr> =
      \<lparr>p_id = 2, p_title = ''T'', p_subtitle = ''S'', p_date = ''March 05, 2024'',
       p_body = ''B'', p_img_url = ''U'', p_author_id = Some 1\<rparr>"
    by (simp add: ex_news_def)
  have fs: "bound_form (ex_request POST [] ''T'') =
      \<lparr>f_title = ''T'', f_subtitle = ''S'', f_img_url = ''U'', f_body = ''B''\<rparr>"
    by (simp add: ex_request_def ex_form_def)
  show ?thesis
    using edit_post_frame [OF ex_current_admin admin post ok there free, THEN conjunct1,
        rule_format, OF fits_sample_ids(2)] first cs new
    by (simp add: Let_def fs)
qed

section \<open>A post id of no post\<close>

text \<open>
  Claim C4, evaluated. For the user with id 1 and an id \<open>i\<close> of no post, \<open>edit_post\<close>
  ends in the AttributeError of reading \<^verbatim>\<open>post.title\<close> on None and \<open>delete_post\<close>
  in the UnmappedInstanceError of deleting None, whatever the request; a GET of
  \<open>show_post\<close> renders the post page with no post. That is for an id that is a
  64-bit signed integer; for any other id the three end in the OverflowError of
  their first query. None of the three answers that the post was not found.
\<close>

theorem missing_post_not_handled:
  assumes "current_user s = Some u" and "u_id u = 1"
    and "get_post (db s) i = None"
  shows
    "edit_post ev i req s =
       (Inl (if fits_sqlite_integer i then AttributeError else OverflowError), s) \<and>
     delete_post i s =
       (Inl (if fits_sqlite_integer i then UnmappedInstanceError else OverflowError), s) \<and>
     (req_method req = GET \<longrightarrow>
        show_post i req s =
          (if fits_sqlite_integer i
           then (Inr (Render (PostPage None (comments_of (db s) i))), s)
           else (Inl OverflowError, s)))"
  using assms
  by (simp add: edit_post_def delete_post_def admin_only_def show_post_def
      BlogPost_query_get_def Comment_query_filter_by_def)

theorem missing_post_not_handled_witness:
  "edit_post ex_env 7 (ex_request GET [] []) (ex_app (Some 1)) =
     (Inl AttributeError, ex_app (Some 1)) \<and>
   delete_post 7 (ex_app (Some 1)) = (Inl UnmappedInstanceError, ex_app (Some 1)) \<and>
   show_post 7 (ex_request GET [] []) (ex_app (Some 1)) =
     (Inr (Render (PostPage None [])), ex_app (Some 1)) \<and>
   edit_post ex_env 9223372036854775808 (ex_request GET [] []) (ex_app (Some 1)) =
     (Inl OverflowError, ex_app (Some 1)) \<and>
   delete_post 9223372036854775808 (ex_app (Some 1)) = (Inl OverflowError, ex_app (Some 1))"
proof -
  have admin: "u_id ex_admin = 1"
    by (simp add: ex_admin_def)
  have none: "get_post (db (ex_app (Some 1))) 7 = None"
    by (simp add: get_post_def ex_app_def ex_db_def ex_post_def ex_news_def)
  have none': "get_post (db (ex_app (Some 1))) 9223372036854775808 = None"
    by (simp add: get_post_def ex_app_def ex_db_def ex_post_def ex_news_def)
  have get: "req_method (ex_request GET [] []) = GET"
    by (simp add: ex_request_def)
  have cs: "comments_of (db (ex_app (Some 1))) 7 = []"
    by (simp add: comments_of_def ex_app_def ex_db_def ex_comment_def)
  have a: "edit_post ex_env 7 (ex_request GET [] []) (ex_app (Some 1)) =
       (Inl AttributeError, ex_app (Some 1)) \<and>
     delete_post 7 (ex_app (Some 1)) = (Inl UnmappedInstanceError, ex_app (Some 1)) \<and>
     show_post 7 (ex_request GET [] []) (ex_app (Some 1)) =
       (Inr (Render (PostPage None [])), ex_app (Some 1))"
    using missing_post_not_handled [OF ex_current_admin admin none, of ex_env "ex_request GET [] []"]
      get cs fits_sample_ids(3)
    by simp
  have b: "edit_post ex_env 9223372036854775808 (ex_request GET [] []) (ex_app (Some 1)) =
       (Inl OverflowError, ex_app (Some 1)) \<and>
     delete_post 9223372036854775808 (ex_app (Some 1)) = (Inl OverflowError, ex_app (Some 1))"
    using missing_post_not_handled [OF ex_current_admin admin none', of ex_env "ex_request GET [] []"]
      not_fits_2_63
    by simp
  from a b show ?thesis by simp
qed

section \<open>The schema's constraints hold in every reachable store\<close>

lemma distinct_map_update_title:
  assumes "distinct (map p_id xs)" and "distinct (map p_title xs)"
    and "t \<notin> set (map p_title (filter (\<lambda>p. p_id p \<noteq> i) xs))"
    and "\<And>p. p_title (g p) = t"
  shows "distinct (map p_title (map (\<lambda>p. if p_id p = i then g p else p) xs))"
  using assms(1-3)
proof (induction xs)
  case Nil
  then show ?case by simp
next
  case (Cons a xs)
  show ?case
  proof (cases "p_id a = i")
    case True
    with Cons.prems(1) have other: "\<And>p. p \<in> set xs \<Longrightarrow> p_id p \<noteq> i"
      by (auto simp: image_iff)
    then have same: "map (\<lambda>p. if p_id p = i then g p else p) xs = xs"
      by (simp add: map_idI)
    from other have "filter (\<lambda>p. p_id p \<noteq> i) xs = xs"
      by (simp add: filter_id_conv)
    with Cons.prems(3) True have "t \<notin> set (map p_title xs)"
      by simp
    with Cons.prems(2) True same assms(4) show ?thesis
      by simp
  next
    case False
    with Cons.prems have ih: "distinct (map p_title (map (\<lambda>p. if p_id p = i then g p else p) xs))"
      by (intro Cons.IH) auto
    from False Cons.prems(3) have "p_title a \<noteq> t"
      by auto
    with Cons.prems(2) assms(4) have "p_title a \<notin>
        set (map p_title (map (\<lambda>p. if p_id p = i then g p else p) xs))"
      by (auto simp: image_iff)
    with ih False show ?thesis
      by simp
  qed
qed

lemma login_keeps_keys_unique:
  assumes "keys_unique (db s)"
  shows "keys_unique (db (snd (login ev req s)))"
  using assms by (simp add: login_keeps_db)

lemma logout_keeps_keys_unique:
  assumes "keys_unique (db s)"
  shows "keys_unique (db (snd (logout s)))"
  using assms by (simp add: logout_def logout_user_def)

lemma show_post_keeps_keys_unique:
  assumes "keys_unique (db s)"
  shows "keys_unique (db (snd (show_post i req s)))"
  using assms next_id_notin [of "map c_id (comments (db s))"]
  by (auto simp: show_post_def add_comment_def keys_unique_def Comment_query_filter_by_def
      BlogPost_query_get_def split: option.splits)

lemma admin_only_keeps:
  assumes "\<And>s. P (db s) \<Longrightarrow> P (db (snd (f s)))" and "P (db s)"
  shows "P (db (snd (admin_only f s)))"
  using assms by (simp add: admin_only_def split: option.splits)

lemma add_new_post_keeps_keys_unique:
  assumes "keys_unique (db s)"
  shows "keys_unique (db (snd (add_new_post ev req s)))"
  unfolding add_new_post_def
proof (rule admin_only_keeps [where P = keys_unique, OF _ assms])
  fix s :: app
  assume "keys_unique (db s)"
  then show "keys_unique (db (snd (let fm = CreatePostForm req empty_form in
        if validate_on_submit ev req fm then
          (case add_post fm (map_option u_id (current_user s))
                  (strftime_B_d_Y (today ev)) (db s) of
             Inl err \<Rightarrow> (Inl err, s)
           | Inr (new_post, d') \<Rightarrow> (Inr (Redirect ''get_all_posts'' [] []), s\<lparr>db := d'\<rparr>))
        else (Inr (Render (MakePostPage fm)), s))))"
    using next_id_notin [of "map p_id (blog_posts (db s))"]
    by (auto simp: add_post_def keys_unique_def Let_def)
qed

lemma update_post_keeps_keys_unique:
  assumes "keys_unique d" and "update_post i f d = Inr d'"
  shows "keys_unique d'"
proof -
  let ?g = "\<lambda>p::BlogPost. p\<lparr>p_title := f_title f, p_subtitle := f_subtitle f,
                         p_img_url := f_img_url f, p_body := f_body f\<rparr>"
  from assms(2) have free: "f_title f \<notin> set (map p_title (filter (\<lambda>p. p_id p \<noteq> i) (blog_posts d)))"
    and d': "d' = d\<lparr>blog_posts := map (\<lambda>p. if p_id p = i then ?g p else p) (blog_posts d)\<rparr>"
    by (auto simp: update_post_def split: if_splits)
  from assms(1) have ids: "distinct (map p_id (blog_posts d))"
    and titles: "distinct (map p_title (blog_posts d))"
    by (simp_all add: keys_unique_def)
  have bp: "blog_posts d' = map (\<lambda>p. if p_id p = i then ?g p else p) (blog_posts d)"
    by (simp add: d')
  have "distinct (map p_title (map (\<lambda>p. if p_id p = i then ?g p else p) (blog_posts d)))"
    by (rule distinct_map_update_title [OF ids titles free]) simp
  then have t': "distinct (map p_title (blog_posts d'))"
    by (simp only: bp)
  have "map p_id (map (\<lambda>p. if p_id p = i then ?g p else p) (blog_posts d)) =
      map p_id (blog_posts d)"
    by (simp add: comp_def if_distrib cong: if_cong)
  then have "map p_id (blog_posts d') = map p_id (blog_posts d)"
    by (simp only: bp)
  with ids have i': "distinct (map p_id (blog_posts d'))"
    by (simp only:)
  have rest: "users d' = users d" "comments d' = comments d"
    by (simp_all add: d')
  from assms(1) show ?thesis
    unfolding keys_unique_def rest by (intro conjI i' t') simp_all
qed

lemma edit_post_keeps_keys_unique:
  assumes "keys_unique (db s)"
  shows "keys_unique (db (snd (edit_post ev i req s)))"
  unfolding edit_post_def
proof (rule admin_only_keeps [where P = keys_unique, OF _ assms], goal_cases)
  case (1 s)
  then show ?case
    using update_post_keeps_keys_unique [OF 1]
    by (auto simp: Let_def BlogPost_query_get_def split: option.splits sum.splits)
qed

lemma delete_row_keeps_keys_unique:
  assumes "keys_unique d"
  shows "keys_unique (delete_row i d)"
proof -
  have "map c_id (comments (delete_row i d)) = map c_id (comments d)"
    by (simp add: delete_row_def comp_def if_distrib cong: if_cong)
  with assms have c': "distinct (map c_id (comments (delete_row i d)))"
    by (simp only: keys_unique_def)
  from assms have p': "distinct (map p_id (blog_posts (delete_row i d)))"
      "distinct (map p_title (blog_posts (delete_row i d)))"
    by (simp_all add: keys_unique_def delete_row_def distinct_map_filter)
  have rest: "users (delete_row i d) = users d"
    by (simp add: delete_row_def)
  from assms show ?thesis
    unfolding keys_unique_def rest by (intro conjI c' p') simp_all
qed

lemma delete_post_keeps_keys_unique:
  assumes "keys_unique (db s)"
  shows "keys_unique (db (snd (delete_post i s)))"
  unfolding delete_post_def
proof (rule admin_only_keeps [where P = keys_unique, OF _ assms], goal_cases)
  case (1 s)
  then show ?case
    by (auto simp: delete_row_keeps_keys_unique BlogPost_query_get_def split: option.splits)
qed

end
